theory Spec2Isabelle
  imports Main "HOL-Library.Sublist" "HOL-Library.Multiset" "HOL-Library.List_Lexorder"
    "HOL-Library.Product_Lexorder"
begin

section \<open>JavaScript string primitives used by the page-path code\<close>

text \<open>
  Page names are JavaScript strings; they are modelled as \<open>string\<close> (a list of
  characters). The source only uses \<open>trim\<close>, \<open>startsWith\<close> (the library's \<open>prefix\<close>),
  \<open>slice(1)\<close> (\<open>drop 1\<close>), \<open>split("/")\<close>, \<open>join("/")\<close>, the regular expression
  \<^verbatim>\<open>/^\/+|\/+$/g\<close> and \<open>replace\<close> with a string pattern.
\<close>

definition isWhiteSpace :: "char \<Rightarrow> bool" where
  \<comment> \<open>the white space and line terminator code units that fit a \<open>char\<close>\<close>
  "isWhiteSpace c \<longleftrightarrow>
     c \<in> set [CHR 0x09, CHR 0x0A, CHR 0x0B, CHR 0x0C, CHR 0x0D, CHR 0x20, CHR 0xA0]"

definition trim :: "string \<Rightarrow> string" where
  \<comment> \<open>\<open>String.prototype.trim\<close>\<close>
  "trim s = rev (dropWhile isWhiteSpace (rev (dropWhile isWhiteSpace s)))"

definition stripSlashes :: "string \<Rightarrow> string" where
  \<comment> \<open>\<^verbatim>\<open>s.replace(/^\/+|\/+$/g, "")\<close>: the leading run and the trailing run of slashes go\<close>
  "stripSlashes s =
     rev (dropWhile (\<lambda>c. c = CHR ''/'') (rev (dropWhile (\<lambda>c. c = CHR ''/'') s)))"

fun splitJS :: "string \<Rightarrow> string list" where
  \<comment> \<open>\<^verbatim>\<open>s.split("/")\<close>: never empty, \<^verbatim>\<open>"".split("/")\<close> is \<^verbatim>\<open>[""]\<close>\<close>
  "splitJS [] = [[]]"
| "splitJS (c # cs) =
     (if c = CHR ''/'' then [] # splitJS cs
      else (case splitJS cs of
              [] \<Rightarrow> [[c]]
            | p # ps \<Rightarrow> (c # p) # ps))"

fun joinJS :: "string list \<Rightarrow> string" where
  \<comment> \<open>\<^verbatim>\<open>parts.join("/")\<close>\<close>
  "joinJS [] = []"
| "joinJS [p] = p"
| "joinJS (p # q # ps) = p @ CHR ''/'' # joinJS (q # ps)"

fun GetSubstitution :: "string \<Rightarrow> string \<Rightarrow> string \<Rightarrow> string \<Rightarrow> string" where
  \<comment> \<open>ECMAScript \<open>GetSubstitution(matched, before, after, template)\<close> for a string pattern
      (no captures): \<^verbatim>\<open>$$\<close> is a dollar sign, \<^verbatim>\<open>$&\<close> the match, \<^verbatim>\<open>$`\<close> the text before
      it, \<^verbatim>\<open>$'\<close> the text after it; any other character is copied\<close>
  "GetSubstitution m b a [] = []"
| "GetSubstitution m b a [c] = [c]"
| "GetSubstitution m b a (c # d # r) =
     (if c = CHR ''$'' \<and> d = CHR ''$'' then CHR ''$'' # GetSubstitution m b a r
      else if c = CHR ''$'' \<and> d = CHR ''&'' then m @ GetSubstitution m b a r
      else if c = CHR ''$'' \<and> d = CHR 0x60 then b @ GetSubstitution m b a r
      else if c = CHR ''$'' \<and> d = CHR 0x27 then a @ GetSubstitution m b a r
      else c # GetSubstitution m b a (d # r))"

fun indexOf :: "string \<Rightarrow> string \<Rightarrow> nat option" where
  \<comment> \<open>position of the first occurrence of the pattern, \<open>None\<close> for JavaScript's -1\<close>
  "indexOf [] pat = (if pat = [] then Some 0 else None)"
| "indexOf (c # cs) pat =
     (if prefix pat (c # cs) then Some 0 else map_option Suc (indexOf cs pat))"

definition replaceJS :: "string \<Rightarrow> string \<Rightarrow> string \<Rightarrow> string" where
  \<comment> \<open>\<^verbatim>\<open>s.replace(pat, rep)\<close> with \<open>pat\<close> a string: only the first occurrence is replaced\<close>
  "replaceJS s pat rep =
     (case indexOf s pat of
        None \<Rightarrow> s
      | Some i \<Rightarrow>
          take i s
          @ GetSubstitution pat (take i s) (drop (i + length pat) s) rep
          @ drop (i + length pat) s)"

section \<open>Pages (nav-types.ts)\<close>

text \<open>
  \<open>TLPage\<close> is the editor's page record; of its fields the code reads \<open>id\<close> and \<open>name\<close>
  (the path, like \<^verbatim>\<open>/a/b/c\<close>). \<open>MyPage\<close> spreads a \<open>TLPage\<close> and adds \<open>my.name\<close> and
  \<open>my.parentPath\<close>. Page ids are opaque; they are modelled as natural numbers.
\<close>

record TLPage =
  id' :: nat
  name :: string

record MyPage = TLPage +
  my_name :: string
  my_parentPath :: string

definition getMyPageSingle :: "TLPage \<Rightarrow> MyPage" where
  "getMyPageSingle page =
     (let parts = splitJS (stripSlashes (name page));
          name' = last parts;
          parentPath = joinJS (butlast parts)
      in \<lparr> id' = id' page, name = name page, my_name = name', my_parentPath = parentPath \<rparr>)"

text \<open>
  The derived data of the specification, written from its words: the segments of a path
  are the path split on \<^verbatim>\<open>/\<close> with the empty segments removed, the name is the last
  segment (empty for the root), the parent path is the path without the last segment.
\<close>

definition segments :: "string \<Rightarrow> string list" where
  "segments path = filter (\<lambda>s. s \<noteq> []) (splitJS path)"

definition segmentsName :: "string \<Rightarrow> string" where
  "segmentsName path = (case rev (segments path) of [] \<Rightarrow> [] | s # _ \<Rightarrow> s)"

definition segmentsParentPath :: "string \<Rightarrow> string" where
  "segmentsParentPath path = joinJS (butlast (segments path))"

definition rederivePath :: "string \<Rightarrow> string \<Rightarrow> string" where
  \<comment> \<open>leading slash, then the parent path, then \<^verbatim>\<open>/\<close> plus the name; the parent path part
      is left out when it is empty\<close>
  "rederivePath parentPath nm =
     (if parentPath = [] then CHR ''/'' # nm else CHR ''/'' # parentPath @ CHR ''/'' # nm)"

definition validPath :: "string \<Rightarrow> bool" where
  \<comment> \<open>a normalized path: the root \<^verbatim>\<open>/\<close>, or a slash followed by text that neither starts
      nor ends with a slash\<close>
  "validPath path =
     (case path of
        [] \<Rightarrow> False
      | c # r \<Rightarrow> c = CHR ''/'' \<and> (r = [] \<or> (hd r \<noteq> CHR ''/'' \<and> last r \<noteq> CHR ''/'')))"

fun insertBy :: "('a \<Rightarrow> 'a \<Rightarrow> int) \<Rightarrow> 'a \<Rightarrow> 'a list \<Rightarrow> 'a list" where
  "insertBy cmp x [] = [x]"
| "insertBy cmp x (y # ys) = (if cmp x y \<le> 0 then x # y # ys else y # insertBy cmp x ys)"

definition sortBy :: "('a \<Rightarrow> 'a \<Rightarrow> int) \<Rightarrow> 'a list \<Rightarrow> 'a list" where
  \<comment> \<open>\<open>Array.prototype.sort(comparefn)\<close>: a stable sort; of two elements the one for which
      \<open>comparefn\<close> is not positive comes first\<close>
  "sortBy cmp xs = foldr (insertBy cmp) xs []"

definition getMyPages :: "(string \<Rightarrow> string \<Rightarrow> int) \<Rightarrow> TLPage list \<Rightarrow> MyPage list" where
  \<comment> \<open>\<open>localeCompare\<close> is \<open>String.prototype.localeCompare\<close> of the host, a parameter here\<close>
  "getMyPages localeCompare pages =
     sortBy (\<lambda>a b. localeCompare (my_name a) (my_name b)) (map getMyPageSingle pages)"

definition findAllChildPages :: "MyPage \<Rightarrow> MyPage list \<Rightarrow> MyPage list" where
  "findAllChildPages parentPage allPages =
     (let parentPath = (if name parentPage = ''/'' then [] else drop 1 (name parentPage))
      in filter (\<lambda>page.
           if id' page = id' parentPage then False
           else (let pagePathWithoutSlash = drop 1 (name page)
                 in prefix (parentPath @ ''/'') pagePathWithoutSlash
                    \<or> (parentPath = [] \<and> name page \<noteq> ''/''))) allPages)"

text \<open>
  The descendant relation of the specification, from its words: for a node other than the
  root, the nodes whose path starts with the node's path followed by a slash; for the root,
  every node that is not the root.
\<close>

definition isDescendant :: "MyPage \<Rightarrow> MyPage \<Rightarrow> bool" where
  "isDescendant a b =
     (if name a = ''/'' then name b \<noteq> ''/'' else prefix (name a @ ''/'') (name b))"

definition descendants :: "MyPage \<Rightarrow> MyPage list \<Rightarrow> MyPage list" where
  "descendants node allPages = filter (isDescendant node) allPages"

text \<open>
  Two orderings on names. \<open>codeUnitLe\<close> is the plain lexicographic comparison of strings
  by character code, the ordering the specification names. \<open>rootCollation\<close> is a model
  of what \<open>localeCompare\<close>, which belongs to the host and not to the repository, does on
  ASCII letters in browsers (the root collation of Unicode): the strings are compared with
  the case of letters ignored, and only strings equal up to case are told apart by case,
  lower case first. Characters other than ASCII letters are ordered by their code here,
  which the collation of a host need not do; the examples below use letters only.
\<close>

fun codeUnitLe :: "string \<Rightarrow> string \<Rightarrow> bool" where
  "codeUnitLe [] t = True"
| "codeUnitLe (c # cs) [] = False"
| "codeUnitLe (c # cs) (d # ds) =
     ((of_char c :: nat) < of_char d \<or> (c = d \<and> codeUnitLe cs ds))"

definition isUpper :: "char \<Rightarrow> bool" where
  "isUpper c \<longleftrightarrow> (65 :: nat) \<le> of_char c \<and> (of_char c :: nat) \<le> 90"

definition collationKey :: "string \<Rightarrow> nat list \<times> nat list" where
  "collationKey s =
     (map (\<lambda>c. if isUpper c then of_char c + 32 else of_char c) s,
      map (\<lambda>c. if isUpper c then 1 else 0) s)"

definition rootCollation :: "string \<Rightarrow> string \<Rightarrow> int" where
  "rootCollation a b =
     (if collationKey a < collationKey b then - 1
      else if collationKey a = collationKey b then 0 else 1)"

section \<open>The editor's page store\<close>

text \<open>
  The handlers act on the editor of the canvas library, which is not part of the
  repository. Its page store is modelled as the specification describes the external page
  store: \<open>createPage\<close> adds one page with the given name and an unused id,
  \<open>renamePage\<close> changes the name of the page with the given id, \<open>deletePage\<close> removes
  it, \<open>setCurrentPage\<close> moves the focus. The record also keeps the mutations the editor
  was asked for in the order they were issued, and the messages passed to
  \<open>window.alert\<close>.
\<close>

datatype mutation = CreatePage string | RenamePage nat string | DeletePage nat

record editor =
  pages :: "TLPage list"
  currentPageId :: nat
  issued :: "mutation list"
  alerts :: "string list"

definition freshId :: "TLPage list \<Rightarrow> nat" where
  \<comment> \<open>Modelled from the spec: ids are opaque and unique, a new page gets an id not in use\<close>
  "freshId ps = Suc (fold max (map id' ps) 0)"

definition createPage :: "string \<Rightarrow> editor \<Rightarrow> editor" where
  \<comment> \<open>Modelled from the spec: \<open>createPage(path)\<close> of the page store, missing from the
      sources as part of the canvas library\<close>
  "createPage nm ed =
     ed\<lparr> pages := pages ed @ [\<lparr> id' = freshId (pages ed), name = nm \<rparr>],
         issued := issued ed @ [CreatePage nm] \<rparr>"

definition renamePage :: "nat \<Rightarrow> string \<Rightarrow> editor \<Rightarrow> editor" where
  \<comment> \<open>Modelled from the spec: \<open>renamePage(id, newPath)\<close> of the page store; the id stays\<close>
  "renamePage i nm ed =
     ed\<lparr> pages := map (\<lambda>p. if id' p = i then p\<lparr> name := nm \<rparr> else p) (pages ed),
         issued := issued ed @ [RenamePage i nm] \<rparr>"

definition deletePage :: "nat \<Rightarrow> editor \<Rightarrow> editor" where
  \<comment> \<open>Modelled from the spec: \<open>deletePage(id)\<close> of the page store\<close>
  "deletePage i ed =
     ed\<lparr> pages := filter (\<lambda>p. id' p \<noteq> i) (pages ed),
         issued := issued ed @ [DeletePage i] \<rparr>"

definition setCurrentPage :: "nat \<Rightarrow> editor \<Rightarrow> editor" where
  \<comment> \<open>Modelled from the spec: \<open>setCurrentPage\<close> of the page store, by the id of the page\<close>
  "setCurrentPage i ed = ed\<lparr> currentPageId := i \<rparr>"

definition alert :: "string \<Rightarrow> editor \<Rightarrow> editor" where
  \<comment> \<open>\<open>window.alert\<close>: the message is shown, nothing else happens\<close>
  "alert msg ed = ed\<lparr> alerts := alerts ed @ [msg] \<rparr>"

section \<open>The handlers\<close>

text \<open>
  Each handler is a function of the editor, the current page, the list \<open>allPages\<close> the
  component was rendered with (it is not refreshed while the handler runs) and the answer
  of the dialog: \<open>window.prompt\<close> gives \<open>None\<close> when cancelled, \<open>window.confirm\<close> a
  truth value.
\<close>

definition handleAdd :: "editor \<Rightarrow> MyPage \<Rightarrow> MyPage list \<Rightarrow> string option \<Rightarrow> editor" where
  \<comment> \<open>AddPageButton.tsx\<close>
  "handleAdd ed currentPage allPages prompt =
     (case prompt of
        None \<Rightarrow> ed
      | Some pageName \<Rightarrow>
          if pageName \<noteq> [] \<and> trim pageName \<noteq> [] then
            (let currentPath = (if name currentPage = ''/'' then [] else name currentPage);
                 fullPath = currentPath @ ''/'' @ trim pageName
             in case find (\<lambda>p. name p = fullPath) allPages of
                  Some existingPage \<Rightarrow> alert ''A page with this name already exists'' ed
                | None \<Rightarrow>
                    (let ed1 = createPage fullPath ed;
                         newPage = (case find (\<lambda>p. name p = fullPath) allPages of
                                      Some p \<Rightarrow> Some (id' p)
                                    | None \<Rightarrow>
                                        map_option id' (find (\<lambda>p. name p = fullPath) (pages ed1)))
                     in case newPage of
                          Some i \<Rightarrow> setCurrentPage i ed1
                        | None \<Rightarrow> ed1))
          else ed)"

definition deletePageAndChildren :: "editor \<Rightarrow> MyPage \<Rightarrow> MyPage list \<Rightarrow> editor" where
  \<comment> \<open>nav-types.ts\<close>
  "deletePageAndChildren ed pageToDelete allPages =
     (let childPages = findAllChildPages pageToDelete allPages;
          pagesToDelete = pageToDelete # childPages
      in fold (\<lambda>page e. deletePage (id' page) e) pagesToDelete ed)"

definition handleDelete :: "editor \<Rightarrow> MyPage \<Rightarrow> MyPage list \<Rightarrow> bool \<Rightarrow> editor" where
  \<comment> \<open>DeletePageButton.tsx; the text of the confirmation message is not modelled\<close>
  "handleDelete ed currentPage allPages confirmed =
     (if confirmed then
        (if name currentPage = ''/'' then alert ''Cannot delete the root page'' ed
         else
           (let parentPath = (if my_parentPath currentPage = [] then ''/''
                              else ''/'' @ my_parentPath currentPage);
                targetPage = find (\<lambda>p. name p = parentPath) allPages;
                ed1 = deletePageAndChildren ed currentPage allPages
            in case targetPage of
                 Some p \<Rightarrow> setCurrentPage (id' p) ed1
               | None \<Rightarrow> ed1))
      else ed)"

fun createMissingParents :: "MyPage list \<Rightarrow> string list \<Rightarrow> string \<Rightarrow> editor \<Rightarrow> editor" where
  \<comment> \<open>the \<open>for\<close> loop of \<open>handleRename\<close> over the path parts but the last, with the
      accumulated \<open>currentPath\<close>\<close>
  "createMissingParents allPages [] currentPath ed = ed"
| "createMissingParents allPages (part # parts) currentPath ed =
     (let currentPath' = currentPath @ ''/'' @ part
      in createMissingParents allPages parts currentPath'
           (case find (\<lambda>p. name p = currentPath') allPages of
              None \<Rightarrow> createPage currentPath' ed
            | Some existingParent \<Rightarrow> ed))"

definition newPagePath :: "MyPage \<Rightarrow> string \<Rightarrow> MyPage \<Rightarrow> string" where
  \<comment> \<open>the new name that the \<open>forEach\<close> of \<open>handleRename\<close> computes for one page\<close>
  "newPagePath currentPage newFullPath page =
     (let oldPathWithoutSlash = drop 1 (name currentPage);
          newPathWithoutSlash = drop 1 newFullPath
      in if id' page = id' currentPage then newFullPath
         else (let pagePathWithoutSlash = drop 1 (name page)
               in ''/'' @ replaceJS pagePathWithoutSlash oldPathWithoutSlash newPathWithoutSlash))"

definition normalizeNewPath :: "string \<Rightarrow> string" where
  \<comment> \<open>\<open>trimmedNewPath\<close> and \<open>normalizedNewPath\<close> of \<open>handleRename\<close>: the answer trimmed and
      given a leading slash when it has none\<close>
  "normalizeNewPath newPath =
     (let trimmedNewPath = trim newPath
      in if prefix ''/'' trimmedNewPath then trimmedNewPath else ''/'' @ trimmedNewPath)"

definition handleRename :: "editor \<Rightarrow> MyPage \<Rightarrow> MyPage list \<Rightarrow> string option \<Rightarrow> editor" where
  \<comment> \<open>RenamePageButton.tsx\<close>
  "handleRename ed currentPage allPages prompt =
     (if name currentPage = ''/'' then alert ''Cannot rename the root page'' ed
      else
        (let currentPath = name currentPage
         in case prompt of
              None \<Rightarrow> ed
            | Some newPath \<Rightarrow>
                if newPath \<noteq> [] \<and> trim newPath \<noteq> [] \<and> trim newPath \<noteq> currentPath then
                  (let normalizedNewPath = normalizeNewPath newPath
                   in case find (\<lambda>p. name p = normalizedNewPath) allPages of
                        Some existingPage \<Rightarrow> alert ''A page with this path already exists'' ed
                      | None \<Rightarrow>
                          (let newFullPath = normalizedNewPath;
                               pathParts = filter (\<lambda>s. s \<noteq> []) (splitJS normalizedNewPath);
                               ed1 = createMissingParents allPages (butlast pathParts) [] ed;
                               childPages = findAllChildPages currentPage allPages;
                               pagesToUpdate = currentPage # childPages;
                               ed2 = fold (\<lambda>page e.
                                       renamePage (id' page)
                                         (newPagePath currentPage newFullPath page) e)
                                       pagesToUpdate ed1
                           in case find (\<lambda>p. name p = newFullPath) (pages ed2) of
                                Some renamedPage \<Rightarrow> setCurrentPage (id' renamedPage) ed2
                              | None \<Rightarrow> ed2))
                else ed))"

text \<open>
  The ancestor paths of a target path, from the words of the specification: the paths made
  of the first \<open>k\<close> segments of the target, for every \<open>k\<close> from one to the number of
  segments less one, the outermost first.
\<close>

definition ancestorPaths :: "string \<Rightarrow> string list" where
  "ancestorPaths target =
     map (\<lambda>k. concat (map (\<lambda>s. CHR ''/'' # s) (take k (segments target))))
       [1 ..< length (segments target)]"

definition addCandidate :: "MyPage \<Rightarrow> string \<Rightarrow> string" where
  \<comment> \<open>the candidate path of the specification's create: the parent's path (empty for the
      root), a slash, and the name\<close>
  "addCandidate parent nm = (if name parent = ''/'' then [] else name parent) @ ''/'' @ nm"

section \<open>Example trees\<close>

definition editorOf :: "TLPage list \<Rightarrow> nat \<Rightarrow> editor" where
  \<comment> \<open>an editor holding the given pages, focused on the given page, nothing issued yet\<close>
  "editorOf ps cur = \<lparr> pages = ps, currentPageId = cur, issued = [], alerts = [] \<rparr>"

definition smallTree :: "TLPage list" where
  "smallTree = [\<lparr> id' = 1, name = ''/'' \<rparr>, \<lparr> id' = 2, name = ''/a'' \<rparr>,
                \<lparr> id' = 3, name = ''/a/c'' \<rparr>]"

definition twoPages :: "TLPage list" where
  "twoPages = [\<lparr> id' = 1, name = ''/'' \<rparr>, \<lparr> id' = 2, name = ''/a'' \<rparr>]"

definition projTree :: "TLPage list" where
  "projTree = [\<lparr> id' = 1, name = ''/'' \<rparr>, \<lparr> id' = 2, name = ''/proj'' \<rparr>,
               \<lparr> id' = 3, name = ''/proj2'' \<rparr>, \<lparr> id' = 4, name = ''/proj/sub'' \<rparr>]"

definition deepTree :: "TLPage list" where
  "deepTree = [\<lparr> id' = 1, name = ''/'' \<rparr>, \<lparr> id' = 2, name = ''/a'' \<rparr>,
               \<lparr> id' = 3, name = ''/a/b'' \<rparr>, \<lparr> id' = 4, name = ''/a/b/c'' \<rparr>,
               \<lparr> id' = 5, name = ''/ab'' \<rparr>]"

definition strayTree :: "TLPage list" where
  \<comment> \<open>a tree with a page whose name does not start with a slash\<close>
  "strayTree = [\<lparr> id' = 1, name = ''/'' \<rparr>, \<lparr> id' = 2, name = ''/a'' \<rparr>,
                \<lparr> id' = 3, name = ''xa/b'' \<rparr>]"

definition pageA :: MyPage where
  "pageA = getMyPageSingle \<lparr> id' = 2, name = ''/a'' \<rparr>"

section \<open>Facts about splitting, joining and stripping\<close>

lemma splitJS_nonempty: "splitJS s \<noteq> []"
  by (induction s) (auto split: list.splits)

lemma joinJS_splitJS: "joinJS (splitJS s) = s"
proof (induction s)
  case Nil show ?case by simp
next
  case (Cons c cs)
  show ?case
  proof (cases "c = CHR ''/''")
    case True
    then show ?thesis using Cons splitJS_nonempty[of cs]
      by (cases "splitJS cs") auto
  next
    case False
    then show ?thesis using Cons splitJS_nonempty[of cs]
      by (cases "splitJS cs"; cases "tl (splitJS cs)") auto
  qed
qed

lemma splitJS_append_slash: "splitJS (s @ CHR ''/'' # t) = splitJS s @ splitJS t"
  by (induction s) (auto split: list.splits simp: splitJS_nonempty)

lemma hd_splitJS: "hd (splitJS s) = [] \<longleftrightarrow> s = [] \<or> hd s = CHR ''/''"
  by (cases s) (auto split: list.splits)

lemma splitJS_single_empty: "splitJS s = [[]] \<longleftrightarrow> s = []"
  by (cases s) (auto split: list.splits simp: splitJS_nonempty)

lemma last_splitJS: "last (splitJS s) = [] \<longleftrightarrow> s = [] \<or> last s = CHR ''/''"
  by (induction s) (auto split: list.splits simp: splitJS_nonempty splitJS_single_empty)

lemma joinJS_butlast_last:
  "butlast xs \<noteq> [] \<Longrightarrow> joinJS (butlast xs) @ CHR ''/'' # last xs = joinJS xs"
  by (induction xs rule: joinJS.induct) (auto split: if_splits)

lemma joinJS_nonempty: "xs \<noteq> [] \<Longrightarrow> hd xs \<noteq> [] \<Longrightarrow> joinJS xs \<noteq> []"
  by (induction xs rule: joinJS.induct) auto

lemma last_dropWhile_ne: "dropWhile P ys \<noteq> [] \<Longrightarrow> last (dropWhile P ys) = last ys"
  by (induction ys) (auto split: if_splits)

lemma stripSlashes_hd:
  assumes ne: "stripSlashes s \<noteq> []"
  shows "hd (stripSlashes s) \<noteq> CHR ''/''"
proof -
  define t where "t = dropWhile (\<lambda>c. c = CHR ''/'') s"
  define u where "u = dropWhile (\<lambda>c. c = CHR ''/'') (rev t)"
  have s: "stripSlashes s = rev u" by (simp add: stripSlashes_def t_def u_def)
  with ne have d: "u \<noteq> []" by simp
  then have t: "t \<noteq> []" unfolding u_def by (cases t) simp_all
  have "hd (rev u) = last u" using d by (simp add: hd_rev)
  also have "\<dots> = last (rev t)" unfolding u_def using d[unfolded u_def] by (rule last_dropWhile_ne)
  also have "\<dots> = hd t" using t by (simp add: last_rev)
  finally have "hd (stripSlashes s) = hd t" using s by simp
  moreover have "hd t \<noteq> CHR ''/''" using hd_dropWhile[OF t[unfolded t_def]] by (simp add: t_def)
  ultimately show ?thesis by simp
qed

lemma stripSlashes_last:
  assumes ne: "stripSlashes s \<noteq> []"
  shows "last (stripSlashes s) \<noteq> CHR ''/''"
proof -
  define t where "t = dropWhile (\<lambda>c. c = CHR ''/'') s"
  define u where "u = dropWhile (\<lambda>c. c = CHR ''/'') (rev t)"
  have s: "stripSlashes s = rev u" by (simp add: stripSlashes_def t_def u_def)
  with ne have d: "u \<noteq> []" by simp
  have "last (rev u) = hd u" using d by (simp add: last_rev)
  moreover have "hd u \<noteq> CHR ''/''" using hd_dropWhile[OF d[unfolded u_def]] by (simp add: u_def)
  ultimately show ?thesis using s by simp
qed

lemma segments_dropWhile: "segments (dropWhile (\<lambda>c. c = CHR ''/'') s) = segments s"
  by (induction s) (auto simp: segments_def)

lemma splitJS_snoc_slash: "splitJS (s @ [CHR ''/'']) = splitJS s @ [[]]"
  using splitJS_append_slash[of s "[]"] by simp

lemma segments_snoc_slash: "segments (s @ [CHR ''/'']) = segments s"
  by (simp add: segments_def splitJS_snoc_slash)

lemma segments_rev_dropWhile: "segments (rev (dropWhile (\<lambda>c. c = CHR ''/'') r)) = segments (rev r)"
  by (induction r) (auto simp: segments_snoc_slash)

lemma segments_stripSlashes: "segments (stripSlashes s) = segments s"
  unfolding stripSlashes_def
  by (simp add: segments_rev_dropWhile segments_dropWhile)

lemma dropWhile_id: "xs = [] \<or> \<not> P (hd xs) \<Longrightarrow> dropWhile P xs = xs"
  by (cases xs) auto

lemma stripSlashes_valid:
  assumes "validPath p"
  shows "CHR ''/'' # stripSlashes p = p"
proof -
  from assms obtain r where p: "p = CHR ''/'' # r"
    and r: "r = [] \<or> (hd r \<noteq> CHR ''/'' \<and> last r \<noteq> CHR ''/'')"
    by (auto simp: validPath_def split: list.splits)
  have 1: "dropWhile (\<lambda>c. c = CHR ''/'') r = r" using r by (intro dropWhile_id) auto
  have 2: "dropWhile (\<lambda>c. c = CHR ''/'') (rev r) = rev r"
    using r by (intro dropWhile_id) (auto simp: hd_rev)
  show ?thesis by (simp add: p stripSlashes_def 1 2)
qed

section \<open>Parsing a page name\<close>

text \<open>
  C5 (amended). \<open>getMyPageSingle\<close> never fails. It strips the leading and the trailing
  slashes of the path only and then splits on \<^verbatim>\<open>/\<close>. The derived name is always the last
  of the non-empty segments of the path (empty for the root). The derived parent path is
  the join of the non-empty segments but the last whenever the stripped path has no empty
  segment inside; an empty segment from a repeated slash inside the path is kept in the
  parent path.
\<close>

theorem getMyPageSingle_segments:
  "my_name (getMyPageSingle page) = segmentsName (name page)
   \<and> ([] \<notin> set (butlast (splitJS (stripSlashes (name page)))) \<longrightarrow>
        my_parentPath (getMyPageSingle page) = segmentsParentPath (name page))"
proof -
  define s where "s = stripSlashes (name page)"
  define parts where "parts = splitJS s"
  have ne: "parts \<noteq> []" by (simp add: parts_def splitJS_nonempty)
  have n: "my_name (getMyPageSingle page) = last parts"
    and pp: "my_parentPath (getMyPageSingle page) = joinJS (butlast parts)"
    by (simp_all add: getMyPageSingle_def Let_def parts_def s_def)
  have seg: "segments (name page) = filter (\<lambda>s. s \<noteq> []) parts"
    using segments_stripSlashes[of "name page"] by (simp add: segments_def parts_def s_def)
  have bl: "parts = butlast parts @ [last parts]" using ne by simp
  have seg2: "segments (name page)
      = filter (\<lambda>s. s \<noteq> []) (butlast parts) @ (if last parts = [] then [] else [last parts])"
    by (subst seg, subst bl) simp
  have lastne: "parts = [[]]" if "last parts = []"
  proof -
    from that have "s = []" using stripSlashes_last[of "name page"]
      by (auto simp: parts_def last_splitJS s_def)
    then show ?thesis by (simp add: parts_def)
  qed
  have A: "my_name (getMyPageSingle page) = segmentsName (name page)"
  proof (cases "last parts = []")
    case True
    then show ?thesis using lastne by (simp add: n segmentsName_def seg)
  next
    case False
    then show ?thesis by (simp add: n segmentsName_def seg2)
  qed
  have B: "my_parentPath (getMyPageSingle page) = segmentsParentPath (name page)"
    if h: "[] \<notin> set (butlast parts)"
  proof (cases "last parts = []")
    case True
    then show ?thesis using lastne by (simp add: pp segmentsParentPath_def seg)
  next
    case False
    have "filter (\<lambda>s. s \<noteq> []) (butlast parts) = butlast parts"
      using h by (auto simp: filter_id_conv)
    then show ?thesis using False by (simp add: pp segmentsParentPath_def seg2)
  qed
  show ?thesis using A B by (simp add: parts_def s_def)
qed

theorem getMyPageSingle_segments_witness:
  "[] \<notin> set (butlast (splitJS (stripSlashes ''/a/b/c/'')))
   \<and> my_name (getMyPageSingle \<lparr> id' = 1, name = ''/a/b/c/'' \<rparr>) = ''c''
   \<and> my_parentPath (getMyPageSingle \<lparr> id' = 1, name = ''/a/b/c/'' \<rparr>) = ''a/b''
   \<and> segmentsName ''/a/b/c/'' = ''c'' \<and> segmentsParentPath ''/a/b/c/'' = ''a/b''"
  using getMyPageSingle_segments[of "\<lparr> id' = 1, name = ''/a/b/c/'' \<rparr>"]
  by (simp add: stripSlashes_def segmentsName_def segmentsParentPath_def segments_def)

text \<open>
  C5 as stated fails: the repeated slash of \<^verbatim>\<open>/a//b\<close> stays in the parent path, which is
  \<^verbatim>\<open>a/\<close> and not the \<^verbatim>\<open>a\<close> of \<^verbatim>\<open>/a/b\<close>.
\<close>

theorem getMyPageSingle_repeated_slash_counterexample:
  "my_parentPath (getMyPageSingle \<lparr> id' = 1, name = ''/a//b'' \<rparr>) = ''a/''
   \<and> my_parentPath (getMyPageSingle \<lparr> id' = 1, name = ''/a/b'' \<rparr>) = ''a''
   \<and> segmentsParentPath ''/a//b'' = ''a''"
  by (simp add: getMyPageSingle_def stripSlashes_def segmentsParentPath_def segments_def)

text \<open>
  C6. Parsing a path and re-deriving the path from the parent path and the name gives the
  normalized path: a slash followed by the path without its leading and trailing slashes.
  For a valid (normalized) path this is the path itself; \<^verbatim>\<open>/a/b/c\<close> comes back from the
  name \<^verbatim>\<open>c\<close> and the parent path \<^verbatim>\<open>a/b\<close>.
\<close>

theorem rederivePath_getMyPageSingle:
  "rederivePath (my_parentPath (getMyPageSingle page)) (my_name (getMyPageSingle page))
     = CHR ''/'' # stripSlashes (name page)
   \<and> (validPath (name page) \<longrightarrow>
        rederivePath (my_parentPath (getMyPageSingle page)) (my_name (getMyPageSingle page))
          = name page)"
proof -
  define s where "s = stripSlashes (name page)"
  define parts where "parts = splitJS s"
  have ne: "parts \<noteq> []" by (simp add: parts_def splitJS_nonempty)
  have j: "joinJS parts = s" by (simp add: parts_def joinJS_splitJS)
  have n: "my_name (getMyPageSingle page) = last parts"
    and pp: "my_parentPath (getMyPageSingle page) = joinJS (butlast parts)"
    by (simp_all add: getMyPageSingle_def Let_def parts_def s_def)
  have main: "rederivePath (my_parentPath (getMyPageSingle page)) (my_name (getMyPageSingle page))
     = CHR ''/'' # stripSlashes (name page)"
  proof (cases "butlast parts = []")
    case True
    with ne have "parts = [last parts]" by (metis append_butlast_last_id append_Nil)
    then have "s = last parts" using j by (metis joinJS.simps(2))
    then show ?thesis using True by (simp add: n pp rederivePath_def s_def)
  next
    case False
    then have two: "hd (butlast parts) = hd parts" by (cases parts) auto
    have "s \<noteq> []" using False by (auto simp: parts_def)
    then have "hd s \<noteq> CHR ''/''" using stripSlashes_hd[of "name page"] by (simp add: s_def)
    with \<open>s \<noteq> []\<close> have "hd parts \<noteq> []" by (simp add: parts_def hd_splitJS)
    then have "joinJS (butlast parts) \<noteq> []" using False two by (simp add: joinJS_nonempty)
    then show ?thesis using joinJS_butlast_last[OF False] j
      by (simp add: n pp rederivePath_def s_def)
  qed
  then show ?thesis using stripSlashes_valid[of "name page"] by simp
qed

theorem rederivePath_getMyPageSingle_witness:
  "validPath ''/a/b/c''
   \<and> my_name (getMyPageSingle \<lparr> id' = 1, name = ''/a/b/c'' \<rparr>) = ''c''
   \<and> my_parentPath (getMyPageSingle \<lparr> id' = 1, name = ''/a/b/c'' \<rparr>) = ''a/b''
   \<and> rederivePath ''a/b'' ''c'' = ''/a/b/c''"
  using rederivePath_getMyPageSingle[of "\<lparr> id' = 1, name = ''/a/b/c'' \<rparr>"]
  by (simp add: validPath_def getMyPageSingle_def stripSlashes_def)

section \<open>Sorting the pages\<close>

lemma mset_insertBy: "mset (insertBy cmp x xs) = add_mset x (mset xs)"
  by (induction xs) simp_all

lemma set_insertBy: "set (insertBy cmp x xs) = insert x (set xs)"
  by (induction xs) auto

lemma sorted_wrt_insertBy:
  assumes total: "\<And>a b. cmp a b \<le> 0 \<or> cmp b a \<le> 0"
    and trans: "\<And>a b c. cmp a b \<le> 0 \<Longrightarrow> cmp b c \<le> 0 \<Longrightarrow> cmp a c \<le> 0"
  shows "sorted_wrt (\<lambda>a b. cmp a b \<le> 0) xs \<Longrightarrow>
    sorted_wrt (\<lambda>a b. cmp a b \<le> (0::int)) (insertBy cmp x xs)"
proof (induction xs)
  case Nil
  show ?case by simp
next
  case (Cons y ys)
  show ?case
  proof (cases "cmp x y \<le> 0")
    case True
    then have "\<forall>z \<in> set ys. cmp x z \<le> 0" using Cons.prems trans by auto
    then show ?thesis using True Cons.prems by simp
  next
    case False
    then have "cmp y x \<le> 0" using total[of x y] by simp
    then show ?thesis using False Cons by (auto simp: set_insertBy)
  qed
qed

lemma sorted_wrt_sortBy:
  assumes total: "\<And>a b. cmp a b \<le> 0 \<or> cmp b a \<le> 0"
    and trans: "\<And>a b c. cmp a b \<le> 0 \<Longrightarrow> cmp b c \<le> 0 \<Longrightarrow> cmp a c \<le> 0"
  shows "sorted_wrt (\<lambda>a b. cmp a b \<le> (0::int)) (sortBy cmp xs)"
  unfolding sortBy_def
  by (induction xs) (simp_all add: sorted_wrt_insertBy[of cmp, OF total trans])

lemma mset_sortBy: "mset (sortBy cmp xs) = mset xs"
  unfolding sortBy_def by (induction xs) (simp_all add: mset_insertBy)

lemma rootCollation_le: "rootCollation a b \<le> 0 \<longleftrightarrow> collationKey a \<le> collationKey b"
  by (auto simp: rootCollation_def)

lemma rootCollation_total: "\<forall>a b. rootCollation a b \<le> 0 \<or> rootCollation b a \<le> 0"
  by (auto simp: rootCollation_le)

lemma rootCollation_trans:
  "\<forall>a b c. rootCollation a b \<le> 0 \<longrightarrow> rootCollation b c \<le> 0 \<longrightarrow> rootCollation a c \<le> 0"
  by (auto simp: rootCollation_le)

text \<open>
  C8 (amended). For every input list \<open>getMyPages\<close> returns the parsed pages, each exactly
  once, sorted by derived name ascending under the comparison \<open>localeCompare\<close> of the host
  (any comparison that is total and transitive), not under the comparison of character
  codes.
\<close>

theorem getMyPages_sorted_by_localeCompare:
  assumes total: "\<forall>a b. localeCompare a b \<le> 0 \<or> localeCompare b a \<le> 0"
    and trans: "\<forall>a b c. localeCompare a b \<le> 0 \<longrightarrow> localeCompare b c \<le> 0
                  \<longrightarrow> localeCompare a c \<le> 0"
  shows "sorted_wrt (\<lambda>a b. localeCompare (my_name a) (my_name b) \<le> 0)
           (getMyPages localeCompare ps)
    \<and> mset (getMyPages localeCompare ps) = mset (map getMyPageSingle ps)"
proof -
  have "sorted_wrt (\<lambda>a b. localeCompare (my_name a) (my_name b) \<le> 0)
     (sortBy (\<lambda>a b. localeCompare (my_name a) (my_name b)) (map getMyPageSingle ps))"
  proof (rule sorted_wrt_sortBy)
    show "localeCompare (my_name a) (my_name b) \<le> 0
        \<or> localeCompare (my_name b) (my_name a) \<le> 0" for a b :: MyPage
      using total by blast
    show "localeCompare (my_name a) (my_name b) \<le> 0
        \<Longrightarrow> localeCompare (my_name b) (my_name c) \<le> 0
        \<Longrightarrow> localeCompare (my_name a) (my_name c) \<le> 0" for a b c :: MyPage
      using trans by blast
  qed
  then show ?thesis by (simp add: getMyPages_def mset_sortBy)
qed

theorem getMyPages_sorted_by_localeCompare_witness:
  "map my_name (getMyPages rootCollation
       [\<lparr> id' = 1, name = ''/B'' \<rparr>, \<lparr> id' = 2, name = ''/a'' \<rparr>]) = [''a'', ''B'']
   \<and> sorted_wrt (\<lambda>a b. rootCollation (my_name a) (my_name b) \<le> 0)
       (getMyPages rootCollation [\<lparr> id' = 1, name = ''/B'' \<rparr>, \<lparr> id' = 2, name = ''/a'' \<rparr>])"
  using getMyPages_sorted_by_localeCompare[OF rootCollation_total rootCollation_trans,
      of "[\<lparr> id' = 1, name = ''/B'' \<rparr>, \<lparr> id' = 2, name = ''/a'' \<rparr>]"]
  by (simp add: getMyPages_def sortBy_def getMyPageSingle_def Let_def stripSlashes_def
      rootCollation_def collationKey_def isUpper_def)

text \<open>
  C8 as stated fails: with the collation of the host the pages \<^verbatim>\<open>/a\<close> and \<^verbatim>\<open>/B\<close> come
  back with the name \<^verbatim>\<open>a\<close> before the name \<^verbatim>\<open>B\<close>, although by character codes the
  upper case \<^verbatim>\<open>B\<close> is smaller.
\<close>

theorem getMyPages_code_unit_counterexample:
  "map my_name (getMyPages rootCollation
       [\<lparr> id' = 1, name = ''/a'' \<rparr>, \<lparr> id' = 2, name = ''/B'' \<rparr>]) = [''a'', ''B'']
   \<and> \<not> codeUnitLe ''a'' ''B''"
  by (simp add: getMyPages_def sortBy_def getMyPageSingle_def Let_def stripSlashes_def
      rootCollation_def collationKey_def isUpper_def)

section \<open>Facts about the editor and the helpers of the handlers\<close>

lemma trim_Nil: "trim [] = []"
  by (simp add: trim_def)

lemma find_None_ball: "find P xs = None \<longleftrightarrow> (\<forall>x \<in> set xs. \<not> P x)"
  by (auto simp: find_None_iff)

lemma find_snoc:
  "find P (xs @ [y])
     = (case find P xs of Some x \<Rightarrow> Some x | None \<Rightarrow> if P y then Some y else None)"
  by (induction xs) simp_all

lemma issued_setCurrentPage: "issued (setCurrentPage i ed) = issued ed"
  and pages_setCurrentPage: "pages (setCurrentPage i ed) = pages ed"
  and alerts_setCurrentPage: "alerts (setCurrentPage i ed) = alerts ed"
  by (simp_all add: setCurrentPage_def)

lemma issued_deletes:
  "issued (fold (\<lambda>page e. deletePage (id' page) e) ps ed)
     = issued ed @ map (\<lambda>p. DeletePage (id' p)) ps"
  by (induction ps arbitrary: ed) (simp_all add: deletePage_def)

lemma pages_deletes:
  "pages (fold (\<lambda>page e. deletePage (id' page) e) ps ed)
     = filter (\<lambda>q. id' q \<notin> id' ` set ps) (pages ed)"
  by (induction ps arbitrary: ed) (auto simp add: deletePage_def intro: filter_cong)

lemma issued_renames:
  "issued (fold (\<lambda>page e. renamePage (id' page) (f page) e) ps ed)
     = issued ed @ map (\<lambda>p. RenamePage (id' p) (f p)) ps"
  by (induction ps arbitrary: ed) (simp_all add: renamePage_def)

lemma pages_renames_other:
  "id' q \<notin> id' ` set ps \<Longrightarrow>
     q \<in> set (pages (fold (\<lambda>page e. renamePage (id' page) (f page) e) ps ed))
       \<longleftrightarrow> q \<in> set (pages ed)"
proof (induction ps arbitrary: ed)
  case Nil
  show ?case by simp
next
  case (Cons p ps)
  have "q \<in> set (pages (renamePage (id' p) (f p) ed)) \<longleftrightarrow> q \<in> set (pages ed)"
    using Cons.prems by (auto simp: renamePage_def)
  then show ?case using Cons by simp
qed

lemma distinct_ids_eq:
  "distinct (map id' ps) \<Longrightarrow> p \<in> set ps \<Longrightarrow> q \<in> set ps \<Longrightarrow> id' p = id' q \<Longrightarrow> p = q"
  by (meson distinct_map inj_onD)

text \<open>
  On a tree whose paths all start with a slash and whose ids are distinct,
  \<open>findAllChildPages\<close> computes the descendants of the specification.
\<close>

lemma findAllChildPages_descendants:
  assumes nonroot: "name node \<noteq> ''/''"
    and mem: "node \<in> set allPages"
    and ids: "distinct (map id' allPages)"
    and wf: "\<forall>p \<in> set allPages. prefix ''/'' (name p)"
  shows "findAllChildPages node allPages = descendants node allPages"
proof -
  from wf mem obtain w where w: "name node = CHR ''/'' # w" by (auto simp: prefix_def)
  with nonroot have wne: "w \<noteq> []" by auto
  have eq: "(if id' b = id' node then False
         else prefix (w @ ''/'') (drop 1 (name b)) \<or> (w = [] \<and> name b \<noteq> ''/''))
        = isDescendant node b" if b: "b \<in> set allPages" for b
  proof -
    from wf b obtain v where v: "name b = CHR ''/'' # v" by (auto simp: prefix_def)
    show ?thesis
    proof (cases "id' b = id' node")
      case True
      then have "b = node" using distinct_ids_eq[OF ids b mem] by simp
      then show ?thesis using True nonroot by (simp add: isDescendant_def prefix_def)
    next
      case False
      then show ?thesis using w v wne nonroot by (simp add: isDescendant_def)
    qed
  qed
  have "findAllChildPages node allPages
      = filter (\<lambda>b. if id' b = id' node then False
         else prefix (w @ ''/'') (drop 1 (name b)) \<or> (w = [] \<and> name b \<noteq> ''/'')) allPages"
    using nonroot w by (simp add: findAllChildPages_def Let_def)
  also have "\<dots> = filter (isDescendant node) allPages"
    by (rule filter_cong[OF refl]) (rule eq)
  finally show ?thesis by (simp add: descendants_def)
qed

lemma node_not_descendant: "name node \<noteq> ''/'' \<Longrightarrow> \<not> isDescendant node node"
  by (simp add: isDescendant_def prefix_def)

section \<open>Deleting a page\<close>

lemma issued_deletePageAndChildren:
  "issued (deletePageAndChildren ed p allPages)
     = issued ed @ map (\<lambda>p. DeletePage (id' p)) (p # findAllChildPages p allPages)"
  unfolding deletePageAndChildren_def Let_def by (rule issued_deletes)

lemma pages_deletePageAndChildren:
  "pages (deletePageAndChildren ed p allPages)
     = filter (\<lambda>q. id' q \<notin> id' ` set (p # findAllChildPages p allPages)) (pages ed)"
  unfolding deletePageAndChildren_def Let_def by (rule pages_deletes)

lemma handleDelete_nonroot:
  assumes "name node \<noteq> ''/''"
  shows "issued (handleDelete ed node allPages True)
           = issued (deletePageAndChildren ed node allPages)"
    and "pages (handleDelete ed node allPages True)
           = pages (deletePageAndChildren ed node allPages)"
  using assms
  by (simp_all add: handleDelete_def Let_def issued_setCurrentPage pages_setCurrentPage
      split: option.split)

text \<open>
  C3 (amended). On a tree whose paths all start with a slash and whose ids are distinct, a
  confirmed delete of a node of the tree other than the root issues the deletion of
  exactly the node and its descendants, and these pages are the ones that leave the
  store; their number is one more than the number of descendants. For the root, on every
  tree, the delete is refused with the message that the root cannot be deleted, and no
  page is removed.
\<close>

theorem handleDelete_subtree:
  "(name node \<noteq> ''/'' \<and> node \<in> set allPages \<and> distinct (map id' allPages)
      \<and> (\<forall>p \<in> set allPages. prefix ''/'' (name p)) \<longrightarrow>
      issued (handleDelete ed node allPages True)
        = issued ed @ map (\<lambda>p. DeletePage (id' p)) (node # descendants node allPages)
      \<and> pages (handleDelete ed node allPages True)
        = filter (\<lambda>q. id' q \<notin> id' ` set (node # descendants node allPages)) (pages ed)
      \<and> card (set (node # descendants node allPages))
        = 1 + card (set (descendants node allPages)))
   \<and> (name node = ''/'' \<longrightarrow>
      handleDelete ed node allPages True = alert ''Cannot delete the root page'' ed
      \<and> pages (handleDelete ed node allPages True) = pages ed
      \<and> issued (handleDelete ed node allPages True) = issued ed)"
proof (intro conjI impI)
  assume h: "name node \<noteq> ''/'' \<and> node \<in> set allPages \<and> distinct (map id' allPages)
      \<and> (\<forall>p \<in> set allPages. prefix ''/'' (name p))"
  then have eq: "findAllChildPages node allPages = descendants node allPages"
    by (intro findAllChildPages_descendants) simp_all
  from h have nr: "name node \<noteq> ''/''" by simp
  show "issued (handleDelete ed node allPages True)
        = issued ed @ map (\<lambda>p. DeletePage (id' p)) (node # descendants node allPages)"
    by (simp only: handleDelete_nonroot[OF nr] issued_deletePageAndChildren eq)
  show "pages (handleDelete ed node allPages True)
        = filter (\<lambda>q. id' q \<notin> id' ` set (node # descendants node allPages)) (pages ed)"
    by (simp only: handleDelete_nonroot[OF nr] pages_deletePageAndChildren eq)
  have "node \<notin> set (descendants node allPages)"
    using node_not_descendant[OF nr] by (simp add: descendants_def)
  then show "card (set (node # descendants node allPages))
        = 1 + card (set (descendants node allPages))" by simp
next
  assume r: "name node = ''/''"
  then show "handleDelete ed node allPages True = alert ''Cannot delete the root page'' ed"
    by (simp add: handleDelete_def)
  then show "pages (handleDelete ed node allPages True) = pages ed"
    and "issued (handleDelete ed node allPages True) = issued ed"
    by (simp_all add: alert_def)
qed

theorem handleDelete_subtree_witness:
  "issued (handleDelete (editorOf deepTree 2) pageA (map getMyPageSingle deepTree) True)
     = [DeletePage 2, DeletePage 3, DeletePage 4]
   \<and> pages (handleDelete (editorOf deepTree 2) pageA (map getMyPageSingle deepTree) True)
     = [\<lparr> id' = 1, name = ''/'' \<rparr>, \<lparr> id' = 5, name = ''/ab'' \<rparr>]
   \<and> card (set (pageA # descendants pageA (map getMyPageSingle deepTree))) = 3
   \<and> alerts (handleDelete (editorOf deepTree 1) (getMyPageSingle \<lparr> id' = 1, name = ''/'' \<rparr>)
        (map getMyPageSingle deepTree) True) = [''Cannot delete the root page'']
   \<and> pages (handleDelete (editorOf deepTree 1) (getMyPageSingle \<lparr> id' = 1, name = ''/'' \<rparr>)
        (map getMyPageSingle deepTree) True) = deepTree"
  using handleDelete_subtree[of pageA "map getMyPageSingle deepTree" "editorOf deepTree 2"]
    handleDelete_subtree[of "getMyPageSingle \<lparr> id' = 1, name = ''/'' \<rparr>"
      "map getMyPageSingle deepTree" "editorOf deepTree 1"]
  by (simp add: deepTree_def pageA_def editorOf_def getMyPageSingle_def Let_def
      stripSlashes_def descendants_def isDescendant_def alert_def)

text \<open>
  C3 as stated fails on a tree with a page whose name lacks the leading slash:
  \<open>findAllChildPages\<close> drops the first character of a name whatever it is, so deleting
  \<^verbatim>\<open>/a\<close> from the tree of \<^verbatim>\<open>/\<close>, \<^verbatim>\<open>/a\<close> and \<^verbatim>\<open>xa/b\<close> also deletes \<^verbatim>\<open>xa/b\<close>, which
  is no descendant of \<^verbatim>\<open>/a\<close>: two pages go where the node and its descendants are one.
\<close>

theorem handleDelete_no_leading_slash_counterexample:
  "name pageA \<noteq> ''/''
   \<and> descendants pageA (map getMyPageSingle strayTree) = []
   \<and> issued (handleDelete (editorOf strayTree 2) pageA (map getMyPageSingle strayTree) True)
       = [DeletePage 2, DeletePage 3]
   \<and> pages (handleDelete (editorOf strayTree 2) pageA (map getMyPageSingle strayTree) True)
       = [\<lparr> id' = 1, name = ''/'' \<rparr>]"
  by (simp add: strayTree_def pageA_def editorOf_def getMyPageSingle_def Let_def
      stripSlashes_def descendants_def isDescendant_def handleDelete_def
      deletePageAndChildren_def findAllChildPages_def deletePage_def setCurrentPage_def)

section \<open>Adding a page\<close>

lemma handleAdd_blank:
  "trim pageName = [] \<Longrightarrow> handleAdd ed currentPage allPages (Some pageName) = ed"
  by (simp add: handleAdd_def)

lemma handleAdd_exists:
  assumes "trim pageName \<noteq> []"
    and "\<exists>p \<in> set allPages. name p = addCandidate currentPage (trim pageName)"
  shows "handleAdd ed currentPage allPages (Some pageName)
        = ed\<lparr> alerts := alerts ed @ [''A page with this name already exists''] \<rparr>"
proof -
  from assms(1) have ne: "pageName \<noteq> []" using trim_Nil by auto
  from assms(2)
  have "find (\<lambda>p. name p = addCandidate currentPage (trim pageName)) allPages \<noteq> None"
    by (simp add: find_None_ball)
  then obtain q
    where "find (\<lambda>p. name p = addCandidate currentPage (trim pageName)) allPages = Some q"
    by auto
  then show ?thesis
    using assms(1) ne by (simp add: handleAdd_def Let_def addCandidate_def alert_def)
qed

lemma handleAdd_fresh:
  assumes "trim pageName \<noteq> []"
    and "\<forall>p \<in> set allPages. name p \<noteq> addCandidate currentPage (trim pageName)"
  shows "handleAdd ed currentPage allPages (Some pageName)
        = ed\<lparr> pages := pages ed @ [\<lparr> id' = freshId (pages ed),
                                      name = addCandidate currentPage (trim pageName) \<rparr>],
              issued := issued ed @ [CreatePage (addCandidate currentPage (trim pageName))],
              currentPageId :=
                (case find (\<lambda>p. name p = addCandidate currentPage (trim pageName)) (pages ed) of
                   Some p \<Rightarrow> id' p
                 | None \<Rightarrow> freshId (pages ed)) \<rparr>"
proof -
  from assms(1) have ne: "pageName \<noteq> []" using trim_Nil by auto
  from assms(2)
  have f: "find (\<lambda>p. name p = addCandidate currentPage (trim pageName)) allPages = None"
    by (simp add: find_None_ball)
  show ?thesis using assms(1) ne f
    by (simp add: handleAdd_def Let_def addCandidate_def createPage_def setCurrentPage_def
         find_snoc split: option.split)
qed

text \<open>
  C7 (amended). \<open>handleAdd\<close> trims the name. A name that is empty after trimming is
  ignored: nothing is reported and nothing is created. Otherwise the candidate path is the
  parent's path (empty for the root), a slash and the trimmed name; the add fails with the
  message that the page exists if and only if some page of \<open>allPages\<close> has exactly that
  path, and then nothing else changes; on success exactly one page with that path is
  created and no message is reported.
\<close>

theorem handleAdd_candidate:
  "(trim pageName = [] \<longrightarrow> handleAdd ed currentPage allPages (Some pageName) = ed)
   \<and> (trim pageName \<noteq> []
        \<and> (\<exists>p \<in> set allPages. name p = addCandidate currentPage (trim pageName)) \<longrightarrow>
        handleAdd ed currentPage allPages (Some pageName)
          = ed\<lparr> alerts := alerts ed @ [''A page with this name already exists''] \<rparr>)
   \<and> (trim pageName \<noteq> []
        \<and> (\<forall>p \<in> set allPages. name p \<noteq> addCandidate currentPage (trim pageName)) \<longrightarrow>
        alerts (handleAdd ed currentPage allPages (Some pageName)) = alerts ed
        \<and> issued (handleAdd ed currentPage allPages (Some pageName))
            = issued ed @ [CreatePage (addCandidate currentPage (trim pageName))]
        \<and> pages (handleAdd ed currentPage allPages (Some pageName))
            = pages ed @ [\<lparr> id' = freshId (pages ed),
                             name = addCandidate currentPage (trim pageName) \<rparr>])"
  using handleAdd_blank[of pageName ed currentPage allPages]
    handleAdd_exists[of pageName allPages currentPage ed]
    handleAdd_fresh[of pageName allPages currentPage ed]
  by simp

theorem handleAdd_candidate_witness:
  "trim ''b'' \<noteq> []
   \<and> pages (handleAdd (editorOf twoPages 2) pageA (map getMyPageSingle twoPages) (Some ''b''))
       = [\<lparr> id' = 1, name = ''/'' \<rparr>, \<lparr> id' = 2, name = ''/a'' \<rparr>,
          \<lparr> id' = 3, name = ''/a/b'' \<rparr>]
   \<and> alerts (handleAdd (editorOf twoPages 2) pageA (map getMyPageSingle twoPages) (Some ''b''))
       = []
   \<and> handleAdd
        (handleAdd (editorOf twoPages 2) pageA (map getMyPageSingle twoPages) (Some ''b''))
        pageA
        (map getMyPageSingle
          (pages (handleAdd (editorOf twoPages 2) pageA (map getMyPageSingle twoPages)
                    (Some ''b''))))
        (Some ''b'')
       = (handleAdd (editorOf twoPages 2) pageA (map getMyPageSingle twoPages) (Some ''b''))
           \<lparr> alerts := [''A page with this name already exists''] \<rparr>
   \<and> handleAdd (editorOf twoPages 2) pageA (map getMyPageSingle twoPages) (Some '' '')
       = editorOf twoPages 2"
proof -
  let ?ed = "editorOf twoPages 2"
  let ?ed1 = "handleAdd ?ed pageA (map getMyPageSingle twoPages) (Some ''b'')"
  have t: "trim ''b'' = ''b''" and t': "trim '' '' = []"
    by (simp_all add: trim_def isWhiteSpace_def)
  have c: "addCandidate pageA ''b'' = ''/a/b''"
    by (simp add: addCandidate_def pageA_def getMyPageSingle_def Let_def)
  have 1: "pages ?ed1 = [\<lparr> id' = 1, name = ''/'' \<rparr>, \<lparr> id' = 2, name = ''/a'' \<rparr>,
          \<lparr> id' = 3, name = ''/a/b'' \<rparr>]"
    and 2: "alerts ?ed1 = []"
    using handleAdd_candidate[of "''b''" ?ed pageA "map getMyPageSingle twoPages"]
    by (simp_all add: t c editorOf_def twoPages_def getMyPageSingle_def Let_def freshId_def)
  have 3: "handleAdd ?ed1 pageA (map getMyPageSingle (pages ?ed1)) (Some ''b'')
       = ?ed1\<lparr> alerts := [''A page with this name already exists''] \<rparr>"
    using handleAdd_candidate[of "''b''" ?ed1 pageA "map getMyPageSingle (pages ?ed1)"]
    by (simp add: t c 1 2 getMyPageSingle_def Let_def)
  have 4: "handleAdd ?ed pageA (map getMyPageSingle twoPages) (Some '' '') = ?ed"
    using handleAdd_candidate[of "'' ''" ?ed pageA "map getMyPageSingle twoPages"]
    by (simp add: t')
  show ?thesis using t 1 2 3 4 by simp
qed

text \<open>
  C7 as stated fails. With the empty name no page has the candidate path \<^verbatim>\<open>/a/\<close>, yet
  nothing is created. With the name \<^verbatim>\<open> b\<close> the page created is \<^verbatim>\<open>/a/b\<close>, not the
  concatenation \<^verbatim>\<open>/a/ b\<close>.
\<close>

theorem handleAdd_blank_or_padded_counterexample:
  "handleAdd (editorOf twoPages 2) pageA (map getMyPageSingle twoPages) (Some '''')
     = editorOf twoPages 2
   \<and> addCandidate pageA '''' \<notin> name ` set (map getMyPageSingle twoPages)
   \<and> addCandidate pageA '' b'' = ''/a/ b''
   \<and> issued (handleAdd (editorOf twoPages 2) pageA (map getMyPageSingle twoPages) (Some '' b''))
     = [CreatePage ''/a/b'']"
  by (simp add: handleAdd_def editorOf_def twoPages_def pageA_def getMyPageSingle_def Let_def
      addCandidate_def trim_def isWhiteSpace_def createPage_def setCurrentPage_def freshId_def)

section \<open>Renaming a page\<close>

lemma GetSubstitution_no_dollar:
  "CHR ''$'' \<notin> set t \<Longrightarrow> GetSubstitution m b a t = t"
  by (induction m b a t rule: GetSubstitution.induct) auto

lemma indexOf_prefix: "prefix pat s \<Longrightarrow> indexOf s pat = Some 0"
  by (cases s) auto

lemma replaceJS_prefix:
  "prefix pat s \<Longrightarrow>
     replaceJS s pat rep = GetSubstitution pat [] (drop (length pat) s) rep @ drop (length pat) s"
  by (simp add: replaceJS_def indexOf_prefix)

text \<open>
  The replacement is anchored at the start of the path of every descendant: a child page
  found by \<open>findAllChildPages\<close> starts with the old path, so the first occurrence that
  \<open>replace\<close> rewrites is the one at position zero. When the new path holds no dollar sign
  the new path of the child is the new path followed by the rest of the child's old path.
\<close>

lemma newPagePath_child:
  assumes child: "page \<in> set (findAllChildPages currentPage allPages)"
    and nonroot: "name currentPage \<noteq> ''/''"
    and wf: "prefix ''/'' (name currentPage)" "prefix ''/'' (name page)"
      "prefix ''/'' newFullPath"
    and nodollar: "CHR ''$'' \<notin> set newFullPath"
  shows "newPagePath currentPage newFullPath page
           = newFullPath @ drop (length (name currentPage)) (name page)"
proof -
  from wf obtain w v n where w: "name currentPage = CHR ''/'' # w"
    and v: "name page = CHR ''/'' # v" and n: "newFullPath = CHR ''/'' # n"
    by (auto simp: prefix_def)
  from nonroot w have wne: "w \<noteq> []" by auto
  from child have ids: "id' page \<noteq> id' currentPage" and pre: "prefix (w @ ''/'') v"
    using nonroot w v wne by (auto simp: findAllChildPages_def Let_def split: if_splits)
  from pre have "prefix w v" by (auto simp: prefix_def)
  then have "replaceJS v w n = n @ drop (length w) v"
    using nodollar n by (simp add: replaceJS_prefix GetSubstitution_no_dollar)
  then show ?thesis using ids w v n by (simp add: newPagePath_def Let_def)
qed

text \<open>
  Whatever the answer of the prompt, a page of the editor whose id is neither the id of
  the renamed page nor that of one of its child pages is still there, with its name.
\<close>

lemma pages_createMissingParents_kept:
  "q \<in> set (pages ed) \<Longrightarrow> q \<in> set (pages (createMissingParents allPages parts cur ed))"
  by (induction parts arbitrary: cur ed) (auto simp: createPage_def Let_def split: option.splits)

lemma handleRename_other_pages_kept:
  assumes "q \<in> set (pages ed)"
    and "id' q \<notin> id' ` set (currentPage # findAllChildPages currentPage allPages)"
  shows "q \<in> set (pages (handleRename ed currentPage allPages prompt))"
proof -
  have "q \<in> set (pages (fold (\<lambda>page e. renamePage (id' page) (f page) e)
            (currentPage # findAllChildPages currentPage allPages)
            (createMissingParents allPages parts [] ed)))" for f parts
    using assms pages_renames_other[OF assms(2)] pages_createMissingParents_kept by blast
  then show ?thesis using assms(1)
    by (simp add: handleRename_def Let_def alert_def pages_setCurrentPage
        split: option.split del: fold.simps fold_simps)
qed

text \<open>
  The root is refused with its own message, and for no other page is that message raised.
\<close>

lemma handleRename_root:
  "name currentPage = ''/'' \<Longrightarrow>
     handleRename ed currentPage allPages prompt = alert ''Cannot rename the root page'' ed"
  by (simp add: handleRename_def)

lemma alerts_renames:
  "alerts (fold (\<lambda>page e. renamePage (id' page) (f page) e) ps ed) = alerts ed"
  by (induction ps arbitrary: ed) (simp_all add: renamePage_def)

lemma alerts_createMissingParents:
  "alerts (createMissingParents allPages parts cur ed) = alerts ed"
  by (induction parts arbitrary: cur ed) (auto simp: createPage_def Let_def split: option.splits)

lemma handleRename_nonroot_alerts:
  "name currentPage \<noteq> ''/'' \<Longrightarrow>
     alerts (handleRename ed currentPage allPages prompt) = alerts ed
     \<or> alerts (handleRename ed currentPage allPages prompt)
         = alerts ed @ [''A page with this path already exists'']"
  by (simp add: handleRename_def Let_def alert_def alerts_setCurrentPage alerts_renames
      alerts_createMissingParents split: option.split del: fold.simps fold_simps)

text \<open>
  The example of the specification: renaming \<^verbatim>\<open>/proj\<close> to \<^verbatim>\<open>/work\<close> leaves \<^verbatim>\<open>/proj2\<close>
  alone and moves \<^verbatim>\<open>/proj/sub\<close> to \<^verbatim>\<open>/work/sub\<close>.
\<close>

lemma handleRename_proj_example:
  "pages (handleRename (editorOf projTree 2) (getMyPageSingle \<lparr> id' = 2, name = ''/proj'' \<rparr>)
      (map getMyPageSingle projTree) (Some ''/work''))
    = [\<lparr> id' = 1, name = ''/'' \<rparr>, \<lparr> id' = 2, name = ''/work'' \<rparr>,
       \<lparr> id' = 3, name = ''/proj2'' \<rparr>, \<lparr> id' = 4, name = ''/work/sub'' \<rparr>]"
  by (simp add: handleRename_def editorOf_def projTree_def getMyPageSingle_def Let_def
      normalizeNewPath_def trim_def isWhiteSpace_def stripSlashes_def findAllChildPages_def
      newPagePath_def replaceJS_def renamePage_def setCurrentPage_def)

text \<open>
  C1, at the input where the code departs from it. The new path of a descendant is built
  with \<open>replace\<close>, which reads \<^verbatim>\<open>$$\<close> in the replacement as one dollar sign. Renaming
  \<^verbatim>\<open>/a\<close> to \<^verbatim>\<open>/$$\<close> in the tree of \<^verbatim>\<open>/\<close>, \<^verbatim>\<open>/a\<close> and \<^verbatim>\<open>/a/c\<close> gives the renamed page
  the path \<^verbatim>\<open>/$$\<close> and its child the path \<^verbatim>\<open>/$/c\<close>, which is not the new path followed
  by the rest \<^verbatim>\<open>/c\<close> of the child's old path.
\<close>

theorem handleRename_dollar_in_new_path:
  "pages (handleRename (editorOf smallTree 2) pageA (map getMyPageSingle smallTree)
            (Some ''/$$''))
     = [\<lparr> id' = 1, name = ''/'' \<rparr>, \<lparr> id' = 2, name = ''/$$'' \<rparr>,
        \<lparr> id' = 3, name = ''/$/c'' \<rparr>]"
  by (simp add: handleRename_def editorOf_def smallTree_def pageA_def getMyPageSingle_def
      Let_def normalizeNewPath_def trim_def isWhiteSpace_def stripSlashes_def
      findAllChildPages_def newPagePath_def replaceJS_def renamePage_def setCurrentPage_def)

text \<open>
  C2, at the input where the code departs from it. The answer \<^verbatim>\<open>a\<close> for the page
  \<^verbatim>\<open>/a\<close> differs from the current path before the slash is added, so the handler goes on
  to look the normalized path \<^verbatim>\<open>/a\<close> up in \<open>allPages\<close>, finds the page being renamed and
  reports that a page with this path already exists, although no other page has it.
\<close>

theorem handleRename_own_path_without_slash:
  "normalizeNewPath ''a'' = name pageA
   \<and> filter (\<lambda>p. name p = normalizeNewPath ''a'') (map getMyPageSingle twoPages) = [pageA]
   \<and> handleRename (editorOf twoPages 2) pageA (map getMyPageSingle twoPages) (Some ''a'')
       = (editorOf twoPages 2)\<lparr> alerts := [''A page with this path already exists''] \<rparr>"
  by (simp add: handleRename_def editorOf_def twoPages_def pageA_def getMyPageSingle_def
      Let_def normalizeNewPath_def trim_def isWhiteSpace_def alert_def stripSlashes_def)

lemma upt_1_Suc_Suc: "[1 ..< Suc (Suc n)] = 1 # map Suc [1 ..< Suc n]"
  by (simp add: map_Suc_upt upt_conv_Cons del: upt_Suc)

lemma issued_createMissingParents:
  "issued (createMissingParents allPages parts cur ed)
     = issued ed @ map CreatePage
         (filter (\<lambda>a. find (\<lambda>p. name p = a) allPages = None)
            (map (\<lambda>k. cur @ concat (map (\<lambda>s. CHR ''/'' # s) (take k parts)))
               [1 ..< Suc (length parts)]))"
proof (induction parts arbitrary: cur ed)
  case Nil
  show ?case by simp
next
  case (Cons part parts)
  have l: "length (part # parts) = Suc (length parts)" by simp
  show ?case
    unfolding l upt_1_Suc_Suc
    by (simp add: Cons.IH createPage_def Let_def comp_def split: option.split del: upt_Suc)
qed

lemma ancestorPaths_loop:
  "map (\<lambda>k. [] @ concat (map (\<lambda>s. CHR ''/'' # s) (take k (butlast (segments t)))))
     [1 ..< Suc (length (butlast (segments t)))] = ancestorPaths t"
proof (cases "segments t = []")
  case True
  then show ?thesis by (simp add: ancestorPaths_def)
next
  case False
  then have "Suc (length (butlast (segments t))) = length (segments t)" by simp
  then show ?thesis unfolding ancestorPaths_def
    by (auto simp: take_butlast simp del: upt_Suc)
qed

text \<open>
  C4. On a successful rename the mutations issued are, in this order: the creation of
  every ancestor path of the target that no page of \<open>allPages\<close> has, the outermost first,
  and then the renames of the page and of its child pages.
\<close>

theorem handleRename_creates_ancestors_first:
  assumes "name currentPage \<noteq> ''/''"
    and "trim newPath \<noteq> []"
    and "trim newPath \<noteq> name currentPage"
    and "\<forall>p \<in> set allPages. name p \<noteq> normalizeNewPath newPath"
  shows "issued (handleRename ed currentPage allPages (Some newPath))
     = issued ed
       @ map CreatePage
           (filter (\<lambda>a. \<forall>p \<in> set allPages. name p \<noteq> a)
              (ancestorPaths (normalizeNewPath newPath)))
       @ map (\<lambda>p. RenamePage (id' p) (newPagePath currentPage (normalizeNewPath newPath) p))
           (currentPage # findAllChildPages currentPage allPages)"
proof -
  from assms(2) have ne: "newPath \<noteq> []" using trim_Nil by auto
  have f: "find (\<lambda>p. name p = normalizeNewPath newPath) allPages = None"
    using assms(4) by (simp add: find_None_ball)
  have flt: "(\<lambda>a. find (\<lambda>p. name p = a) allPages = None)
      = (\<lambda>a. \<forall>p \<in> set allPages. name p \<noteq> a)"
    by (simp add: find_None_ball)
  define ed1 where "ed1 = createMissingParents allPages
     (butlast (filter (\<lambda>s. s \<noteq> []) (splitJS (normalizeNewPath newPath)))) [] ed"
  have i1: "issued ed1 = issued ed @ map CreatePage
           (filter (\<lambda>a. \<forall>p \<in> set allPages. name p \<noteq> a)
              (ancestorPaths (normalizeNewPath newPath)))"
    unfolding ed1_def issued_createMissingParents flt
    using ancestorPaths_loop[of "normalizeNewPath newPath"]
    by (simp add: segments_def del: upt_Suc)
  define ed2 where "ed2 = fold (\<lambda>page e. renamePage (id' page)
       (newPagePath currentPage (normalizeNewPath newPath) page) e)
       (currentPage # findAllChildPages currentPage allPages) ed1"
  have i2: "issued ed2 = issued ed1
      @ map (\<lambda>p. RenamePage (id' p) (newPagePath currentPage (normalizeNewPath newPath) p))
           (currentPage # findAllChildPages currentPage allPages)"
    unfolding ed2_def by (rule issued_renames)
  have "issued (handleRename ed currentPage allPages (Some newPath)) = issued ed2"
    unfolding ed2_def ed1_def using assms(1,3) ne assms(2) f
    by (simp add: handleRename_def Let_def issued_setCurrentPage split: option.split
        del: fold.simps fold_simps)
  then show ?thesis by (simp add: i2 i1)
qed

theorem handleRename_creates_ancestors_first_witness:
  "issued (handleRename (editorOf smallTree 2) pageA (map getMyPageSingle smallTree)
             (Some ''/x/y''))
   = [CreatePage ''/x'', RenamePage 2 ''/x/y'', RenamePage 3 ''/x/y/c'']"
proof -
  have 1: "name pageA \<noteq> ''/''"
    by (simp add: pageA_def getMyPageSingle_def Let_def)
  have 2: "trim ''/x/y'' \<noteq> []"
    by (simp add: trim_def isWhiteSpace_def)
  have 3: "trim ''/x/y'' \<noteq> name pageA"
    by (simp add: trim_def isWhiteSpace_def pageA_def getMyPageSingle_def Let_def)
  have 4: "\<forall>p \<in> set (map getMyPageSingle smallTree). name p \<noteq> normalizeNewPath ''/x/y''"
    by (simp add: smallTree_def normalizeNewPath_def trim_def isWhiteSpace_def
        getMyPageSingle_def Let_def)
  show ?thesis
    unfolding handleRename_creates_ancestors_first[OF 1 2 3 4]
    by (simp add: smallTree_def editorOf_def pageA_def normalizeNewPath_def trim_def
        isWhiteSpace_def getMyPageSingle_def ancestorPaths_def segments_def
        findAllChildPages_def newPagePath_def replaceJS_def stripSlashes_def upt_conv_Cons
        Let_def)
qed

lemma handleRename_exists:
  assumes "name currentPage \<noteq> ''/''"
    and "trim newPath \<noteq> []"
    and "trim newPath \<noteq> name currentPage"
    and "\<exists>p \<in> set allPages. name p = normalizeNewPath newPath"
  shows "handleRename ed currentPage allPages (Some newPath)
        = ed\<lparr> alerts := alerts ed @ [''A page with this path already exists''] \<rparr>"
proof -
  from assms(2) have ne: "newPath \<noteq> []" using trim_Nil by auto
  from assms(4) have "find (\<lambda>p. name p = normalizeNewPath newPath) allPages \<noteq> None"
    by (simp add: find_None_ball)
  then obtain q where "find (\<lambda>p. name p = normalizeNewPath newPath) allPages = Some q"
    by auto
  then show ?thesis
    using assms(1,2,3) ne by (simp add: handleRename_def Let_def alert_def)
qed

text \<open>
  C9. When the add or the rename finds the target path occupied, the editor that comes
  back is the one that went in with the message added: no page is created, renamed or
  deleted, nothing is issued and the focus stays.
\<close>

theorem alreadyExists_changes_nothing:
  "(trim pageName \<noteq> []
      \<and> (\<exists>p \<in> set allPages. name p = addCandidate currentPage (trim pageName)) \<longrightarrow>
      handleAdd ed currentPage allPages (Some pageName)
        = ed\<lparr> alerts := alerts ed @ [''A page with this name already exists''] \<rparr>)
   \<and> (name currentPage \<noteq> ''/'' \<and> trim newPath \<noteq> [] \<and> trim newPath \<noteq> name currentPage
        \<and> (\<exists>p \<in> set allPages. name p = normalizeNewPath newPath) \<longrightarrow>
      handleRename ed currentPage allPages (Some newPath)
        = ed\<lparr> alerts := alerts ed @ [''A page with this path already exists''] \<rparr>)"
  using handleAdd_exists[of pageName allPages currentPage ed]
    handleRename_exists[of currentPage newPath allPages ed]
  by simp

theorem alreadyExists_changes_nothing_witness:
  "handleAdd (editorOf smallTree 2) pageA (map getMyPageSingle smallTree) (Some ''c'')
     = (editorOf smallTree 2)\<lparr> alerts := [''A page with this name already exists''] \<rparr>
   \<and> handleRename (editorOf smallTree 2) pageA (map getMyPageSingle smallTree) (Some ''/a/c'')
     = (editorOf smallTree 2)\<lparr> alerts := [''A page with this path already exists''] \<rparr>"
  using alreadyExists_changes_nothing[of "''c''" "map getMyPageSingle smallTree" pageA
      "editorOf smallTree 2" "''/a/c''"]
  by (simp add: smallTree_def editorOf_def pageA_def getMyPageSingle_def Let_def
      addCandidate_def normalizeNewPath_def trim_def isWhiteSpace_def)

text \<open>
  C10. Renaming a page other than the root to a new path whose trimmed form is its current
  path changes nothing: the editor comes back as it went in, with no message.
\<close>

theorem handleRename_same_path_noop:
  "name currentPage \<noteq> ''/'' \<Longrightarrow> trim newPath = name currentPage \<Longrightarrow>
     handleRename ed currentPage allPages (Some newPath) = ed"
  by (simp add: handleRename_def)

theorem handleRename_same_path_noop_witness:
  "name pageA \<noteq> ''/'' \<and> trim '' /a  '' = name pageA
   \<and> handleRename (editorOf smallTree 2) pageA (map getMyPageSingle smallTree) (Some '' /a  '')
       = editorOf smallTree 2"
proof -
  have 1: "name pageA \<noteq> ''/''"
    by (simp add: pageA_def getMyPageSingle_def Let_def)
  have 2: "trim '' /a  '' = name pageA"
    by (simp add: trim_def isWhiteSpace_def pageA_def getMyPageSingle_def Let_def)
  show ?thesis using 1 2 handleRename_same_path_noop[OF 1 2] by simp
qed

end
